theory Spec2Isabelle
  imports Main "HOL-Library.Sublist"
begin

section \<open>Data model of grnode.go\<close>

text \<open>
  Go strings are byte sequences, as \<^typ>\<open>string\<close> is. The three structs of the
  source become records. \<open>GraphMetadata.Name\<close> is called \<open>GraphName\<close> here, since
  \<open>NodeData\<close> has a field \<open>Name\<close> as well.
\<close>

record NodeData =
  Name :: string
  Path :: string
  Synopsis :: string
  URL :: string

record GraphMetadata =
  GraphName :: string
  BackgroundColor :: string
  FontName :: string

record EdgeData =
  From :: string
  To :: string
  Relation :: string
  Color :: string
  Style :: string

text \<open>A Go \<open>error\<close> is modelled by the message its \<open>Error()\<close> method returns.\<close>

datatype error = Error string

fun errorMessage :: "error \<Rightarrow> string" where
  "errorMessage (Error msg) = msg"

section \<open>Library functions used by renderGraph\<close>

text \<open>
  The verb \<open>%d\<close> of \<open>fmt\<close> on a non-negative \<open>int\<close>: decimal digits, most
  significant first, no leading zero, \<open>0\<close> for zero. The only values formatted
  are slice indices, so the argument is a \<^typ>\<open>nat\<close>.
\<close>

definition digit :: "nat \<Rightarrow> char" where
  "digit d = char_of (48 + d)"

function itoa :: "nat \<Rightarrow> string" where
  "itoa n = (if n < 10 then [digit n] else itoa (n div 10) @ [digit (n mod 10)])"
  by pat_completeness auto
termination
  by (relation "measure id") auto

declare itoa.simps [simp del]

text \<open>
  \<open>strings.Replace(s, old, new, n)\<close> for a non-empty \<open>old\<close>: the leftmost
  occurrences of \<open>old\<close>, not overlapping, are replaced by \<open>new\<close>, at most \<open>n\<close>
  of them, all of them when \<open>n < 0\<close>. The string is returned unchanged when
  \<open>old = new\<close> or \<open>n = 0\<close>. (With an empty \<open>old\<close> Go inserts \<open>new\<close> at every
  rune boundary; renderGraph never calls it so, and that case is left as the
  identity.)
\<close>

function replaceFrom :: "string \<Rightarrow> string \<Rightarrow> int \<Rightarrow> string \<Rightarrow> string" where
  "replaceFrom old new n s =
     (if n = 0 \<or> old = [] \<or> s = [] then s
      else if prefix old s then new @ replaceFrom old new (n - 1) (drop (length old) s)
      else hd s # replaceFrom old new n (tl s))"
  by pat_completeness auto
termination
  by (relation "measure (\<lambda>(old, new, n, s). length s)") auto

declare replaceFrom.simps [simp del]

definition strings_Replace :: "string \<Rightarrow> string \<Rightarrow> string \<Rightarrow> int \<Rightarrow> string" where
  "strings_Replace s old new n = (if old = new \<or> n = 0 then s else replaceFrom old new n s)"

text \<open>
  \<open>bytes.Index(p, sep)\<close>: the index of the first occurrence of \<open>sep\<close> in \<open>p\<close>,
  or \<open>-1\<close>.
\<close>

fun bytes_Index :: "string \<Rightarrow> string \<Rightarrow> int" where
  "bytes_Index [] sep = (if sep = [] then 0 else -1)"
| "bytes_Index (c # cs) sep =
     (if prefix sep (c # cs) then 0
      else (let i = bytes_Index cs sep in if i < 0 then -1 else i + 1))"

section \<open>The buffer\<close>

text \<open>
  The \<open>bytes.Buffer\<close> named \<open>in\<close> is the sequence of the writes made to it, in
  order; its contents are their concatenation.
\<close>

type_synonym Buffer = "string list"

definition Fprintf :: "Buffer \<Rightarrow> string \<Rightarrow> Buffer" where
  "Fprintf b s = b @ [s]"

definition WriteString :: "Buffer \<Rightarrow> string \<Rightarrow> Buffer" where
  "WriteString b s = b @ [s]"

definition Bytes :: "Buffer \<Rightarrow> string" where
  "Bytes b = concat b"

section \<open>renderGraph: building the document\<close>

definition graphHeader :: "GraphMetadata \<Rightarrow> string" where
  \<open>graphHeader graphMeta = ''digraph '' @ GraphName graphMeta @ '' { \<newline>''\<close>

definition bgcolorLine :: "GraphMetadata \<Rightarrow> string" where
  \<open>bgcolorLine graphMeta = ''  bgcolor="'' @ BackgroundColor graphMeta @ ''";\<newline>''\<close>

definition fontnameLine :: "GraphMetadata \<Rightarrow> string" where
  \<open>fontnameLine graphMeta = ''  fontname="'' @ FontName graphMeta @ ''";\<newline>''\<close>

definition defaultNodeStyle :: string where
  \<open>defaultNodeStyle =
     ''  node [shape=box, style=filled, fillcolor="#e0e0e0", fontname="Arial"];\<newline>''\<close>

definition defaultEdgeStyle :: string where
  \<open>defaultEdgeStyle = ''  edge [color="#555555", fontname="Arial"];\<newline>''\<close>

text \<open>Lines 85 to 95: the header, the optional graph attributes, the two defaults.\<close>

definition writeHeader :: "Buffer \<Rightarrow> GraphMetadata \<Rightarrow> Buffer" where
  "writeHeader b graphMeta =
     (let b1 = Fprintf b (graphHeader graphMeta);
          b2 = (if BackgroundColor graphMeta \<noteq> [] then Fprintf b1 (bgcolorLine graphMeta) else b1);
          b3 = (if FontName graphMeta \<noteq> [] then Fprintf b2 (fontnameLine graphMeta) else b2);
          b4 = Fprintf b3 defaultNodeStyle
      in Fprintf b4 defaultEdgeStyle)"

text \<open>
  The argument \<open>strings.Replace(node.Synopsis, `"`, `\"`, -1)\<close> of line 100;
  the replacement is a backslash followed by a double quote.
\<close>

definition escapedSynopsis :: "NodeData \<Rightarrow> string" where
  \<open>escapedSynopsis node = strings_Replace (Synopsis node) ''"'' [CHR 0x5C, CHR 0x22] (- 1)\<close>

text \<open>The format of lines 98 to 100, with \<open>%d\<close> and the three \<open>%s\<close> filled in.\<close>

definition nodeDecl :: "nat \<Rightarrow> NodeData \<Rightarrow> string" where
  \<open>nodeDecl i node =
     ''  n'' @ itoa i @ '' [label="'' @ Name node @ ''", URL="'' @ URL node
       @ ''", tooltip="'' @ escapedSynopsis node @ ''"];\<newline>''\<close>

text \<open>The loop of lines 97 to 101; \<open>i\<close> is the index \<open>range\<close> counts.\<close>

fun writeNodes :: "Buffer \<Rightarrow> nat \<Rightarrow> NodeData list \<Rightarrow> Buffer" where
  "writeNodes b i [] = b"
| "writeNodes b i (node # rest) = writeNodes (Fprintf b (nodeDecl i node)) (Suc i) rest"

text \<open>
  The loop of lines 104 to 107 on the map \<open>nodeIndexMap\<close>: each node stores its
  index under its name, in input order.
\<close>

fun fillIndexMap :: "(string \<rightharpoonup> nat) \<Rightarrow> nat \<Rightarrow> NodeData list \<Rightarrow> (string \<rightharpoonup> nat)" where
  "fillIndexMap m i [] = m"
| "fillIndexMap m i (node # rest) = fillIndexMap (m(Name node \<mapsto> i)) (Suc i) rest"

definition nodeIndexMap :: "NodeData list \<Rightarrow> (string \<rightharpoonup> nat)" where
  "nodeIndexMap nodes = fillIndexMap Map.empty 0 nodes"

definition unknownNodeError :: "EdgeData \<Rightarrow> error" where
  "unknownNodeError edge =
     Error (''error: edge refers to unknown node(s) from: '' @ From edge @ '', to: '' @ To edge)"

text \<open>
  The body of the loop of lines 109 to 140 for one edge. The flag
  \<open>hasAttributes\<close> is threaded with the buffer; the branch for \<open>Style\<close> does
  not set it, as in the source.
\<close>

definition writeEdge :: "(string \<rightharpoonup> nat) \<Rightarrow> Buffer \<Rightarrow> EdgeData \<Rightarrow> error + Buffer" where
  \<open>writeEdge m b edge =
     (case (m (From edge), m (To edge)) of
        (Some fromIndex, Some toIndex) \<Rightarrow>
          (let b1 = Fprintf b (''  n'' @ itoa fromIndex @ '' -> n'' @ itoa toIndex);
               hasAttributes = False;
               (b2, hasAttributes) =
                  (if Relation edge \<noteq> []
                   then (Fprintf b1 ('' [label="'' @ Relation edge @ ''"''), True)
                   else (b1, hasAttributes));
               (b3, hasAttributes) =
                  (if Color edge \<noteq> []
                   then (if \<not> hasAttributes
                         then (Fprintf b2 ('' [color="'' @ Color edge @ ''"''), True)
                         else (Fprintf b2 ('', color="'' @ Color edge @ ''"''), hasAttributes))
                   else (b2, hasAttributes));
               b4 =
                  (if Style edge \<noteq> []
                   then (if \<not> hasAttributes
                         then Fprintf b3 ('' [style="'' @ Style edge @ ''"'')
                         else Fprintf b3 ('', style="'' @ Style edge @ ''"''))
                   else b3);
               b5 = (if hasAttributes then Fprintf b4 '']'' else b4)
           in Inr (Fprintf b5 '';\<newline>''))
      | _ \<Rightarrow> Inl (unknownNodeError edge))\<close>

fun writeEdges :: "(string \<rightharpoonup> nat) \<Rightarrow> Buffer \<Rightarrow> EdgeData list \<Rightarrow> error + Buffer" where
  "writeEdges m b [] = Inr b"
| "writeEdges m b (edge # rest) =
     (case writeEdge m b edge of
        Inl err \<Rightarrow> Inl err
      | Inr b' \<Rightarrow> writeEdges m b' rest)"

text \<open>Lines 82 to 142: the buffer when the closing brace has been written.\<close>

definition buildDocument :: "GraphMetadata \<Rightarrow> NodeData list \<Rightarrow> EdgeData list \<Rightarrow> error + Buffer" where
  "buildDocument graphMeta nodes edges =
     (let b1 = writeHeader [] graphMeta;
          b2 = writeNodes b1 0 nodes
      in case writeEdges (nodeIndexMap nodes) b2 edges of
           Inl err \<Rightarrow> Inl err
         | Inr b3 \<Rightarrow> Inr (WriteString b3 ''}''))"

section \<open>renderGraph: the whole function\<close>

text \<open>
  What renderGraph does outside the buffer is recorded as a trace of effects.
  The file system and the \<open>dot\<close> process are parameters: \<open>WriteFile path data\<close>
  returns the error of \<open>os.WriteFile\<close> if any, \<open>RunDot stdin\<close> the error of
  \<open>cmd.Run\<close> or the bytes the process wrote to its standard output.
\<close>

record Env =
  WriteFile :: "string \<Rightarrow> string \<Rightarrow> error option"
  RunDot :: "string \<Rightarrow> error + string"

text \<open>
  \<open>WriteFileCall path data\<close> is the call of \<open>os.WriteFile\<close>, whether it succeeds
  or not, \<open>Printed\<close> a line on standard output, \<open>DotCall stdin\<close> the run of
  \<open>dot -Tsvg\<close> with the given standard input.
\<close>

datatype Effect =
    WriteFileCall string string
  | Printed string
  | DotCall string

definition extractSvg :: "string \<Rightarrow> error + string" where
  "extractSvg p =
     (let i = bytes_Index p ''<svg''
      in if i < 0 then Inl (Error ''<svg not found'') else Inr (drop (nat i) p))"

definition renderGraph ::
  "Env \<Rightarrow> GraphMetadata \<Rightarrow> NodeData list \<Rightarrow> EdgeData list \<Rightarrow> string \<Rightarrow> Effect list \<times> (error + string)" where
  "renderGraph env graphMeta nodes edges dotOutput =
     (case buildDocument graphMeta nodes edges of
        Inl err \<Rightarrow> ([], Inl err)
      | Inr inbuf \<Rightarrow>
          (let doc = Bytes inbuf;
               written =
                 (if dotOutput \<noteq> []
                  then (case WriteFile env dotOutput doc of
                          Some err \<Rightarrow>
                            ([WriteFileCall dotOutput doc],
                             Some (Error (''error writing DOT file: '' @ errorMessage err)))
                        | None \<Rightarrow>
                            ([WriteFileCall dotOutput doc,
                              Printed (''DOT output written to '' @ dotOutput @ ''\<newline>'')],
                             None))
                  else ([], None))
           in case snd written of
                Some err \<Rightarrow> (fst written, Inl err)
              | None \<Rightarrow>
                  (case RunDot env doc of
                     Inl err \<Rightarrow> (fst written @ [DotCall doc], Inl err)
                   | Inr p \<Rightarrow> (fst written @ [DotCall doc], extractSvg p))))"

section \<open>Notions used by the properties\<close>

text \<open>
  The lines of a text are what stands between its newline characters, as
  \<open>strings.Split(text, "\n")\<close> gives them: the text after the last newline is
  the last line.
\<close>

fun splitLines :: "string \<Rightarrow> string list" where
  "splitLines [] = [[]]"
| "splitLines (c # cs) =
     (if c = CHR ''\<newline>'' then [] # splitLines cs
      else (case splitLines cs of [] \<Rightarrow> [[c]] | l # ls \<Rightarrow> (c # l) # ls))"

definition noNewline :: "string \<Rightarrow> bool" where
  "noNewline s = (CHR ''\<newline>'' \<notin> set s)"

subsection \<open>The edge statement in the words of the specification\<close>

text \<open>
  Section 4.2, step 6 of the specification: the present attributes in the order
  label, color, style, comma-separated, in one attribute list that is omitted
  when none is present. This definition follows the specification, not the
  source; \<open>writeEdge\<close> above is the source.
\<close>

definition edgeAttributes :: "EdgeData \<Rightarrow> string list" where
  \<open>edgeAttributes edge =
     (if Relation edge \<noteq> [] then [''label="'' @ Relation edge @ ''"''] else [])
     @ (if Color edge \<noteq> [] then [''color="'' @ Color edge @ ''"''] else [])
     @ (if Style edge \<noteq> [] then [''style="'' @ Style edge @ ''"''] else [])\<close>

fun commaSeparated :: "string list \<Rightarrow> string" where
  "commaSeparated [] = []"
| "commaSeparated [a] = a"
| "commaSeparated (a # a' # rest) = a @ '', '' @ commaSeparated (a' # rest)"

definition specEdgeStatement :: "nat \<Rightarrow> nat \<Rightarrow> EdgeData \<Rightarrow> string" where
  \<open>specEdgeStatement i j edge =
     ''  n'' @ itoa i @ '' -> n'' @ itoa j
     @ (if edgeAttributes edge = [] then [] else '' ['' @ commaSeparated (edgeAttributes edge) @ '']'')
     @ '';\<newline>''\<close>

subsection \<open>A concrete model\<close>

definition exampleMeta :: GraphMetadata where
  "exampleMeta = \<lparr>GraphName = ''test'', BackgroundColor = ''lightgray'', FontName = []\<rparr>"

definition exampleNodes :: "NodeData list" where
  "exampleNodes =
     [\<lparr>Name = ''main'', Path = ''cmd/main'', Synopsis = ''Main Application'', URL = ''/main''\<rparr>,
      \<lparr>Name = ''pkg1'', Path = ''pkg/pkg1'', Synopsis = ''First Package'', URL = ''/pkg1''\<rparr>]"

definition exampleEdges :: "EdgeData list" where
  "exampleEdges =
     [\<lparr>From = ''main'', To = ''pkg1'', Relation = ''depends_on'', Color = [], Style = []\<rparr>]"

definition exampleDocument :: Buffer where
  \<open>exampleDocument =
     [''digraph test { \<newline>'',
      ''  bgcolor="lightgray";\<newline>'',
      ''  node [shape=box, style=filled, fillcolor="#e0e0e0", fontname="Arial"];\<newline>'',
      ''  edge [color="#555555", fontname="Arial"];\<newline>'',
      ''  n0 [label="main", URL="/main", tooltip="Main Application"];\<newline>'',
      ''  n1 [label="pkg1", URL="/pkg1", tooltip="First Package"];\<newline>'',
      ''  n0 -> n1'', '' [label="depends_on"'', '']'', '';\<newline>'',
      ''}'']\<close>

text \<open>The same model with a font name and no background color.\<close>

definition fontMeta :: GraphMetadata where
  "fontMeta = \<lparr>GraphName = ''test'', BackgroundColor = [], FontName = ''Courier''\<rparr>"

definition fontDocument :: Buffer where
  \<open>fontDocument = hd exampleDocument # ''  fontname="Courier";\<newline>'' # drop 2 exampleDocument\<close>

text \<open>The same model with a second edge, which has no attribute.\<close>

definition exampleBareEdge :: EdgeData where
  "exampleBareEdge = \<lparr>From = ''pkg1'', To = ''main'', Relation = [], Color = [], Style = []\<rparr>"

definition bareDocument :: Buffer where
  \<open>bareDocument = butlast exampleDocument @ [''  n1 -> n0'', '';\<newline>'', ''}'']\<close>

section \<open>Facts about the library functions\<close>

lemma digit_value: "d < 10 \<Longrightarrow> (of_char (digit d) :: nat) = 48 + d"
  by (simp add: digit_def)

text \<open>Reading the digits back gives the number, so \<open>itoa\<close> is injective.\<close>

lemma itoa_value: "foldl (\<lambda>acc c. 10 * acc + (of_char c - 48)) 0 (itoa n) = n"
proof (induction n rule: itoa.induct)
  case (1 n)
  show ?case
  proof (cases "n < 10")
    case True
    then show ?thesis by (subst itoa.simps) (simp add: digit_value)
  next
    case False
    with 1 show ?thesis by (subst itoa.simps) (simp add: digit_value)
  qed
qed

lemma itoa_inj: "itoa n = itoa k \<Longrightarrow> n = k"
  by (metis itoa_value)

lemma itoa_0: "itoa 0 = ''0''"
  by code_simp

lemma itoa_1: "itoa 1 = ''1''"
  by code_simp

lemma itoa_Suc_0: "itoa (Suc 0) = ''1''"
  using itoa_1 by simp

lemma itoa_2: "itoa 2 = ''2''"
  by code_simp

text \<open>Replacing every double quote works character by character.\<close>

lemma replaceFrom_quote:
  "n < 0 \<Longrightarrow> replaceFrom [CHR 0x22] new n s =
     concat (map (\<lambda>c. if c = CHR 0x22 then new else [c]) s)"
proof (induction s arbitrary: n)
  case Nil
  show ?case by (subst replaceFrom.simps) simp
next
  case (Cons c cs)
  from Cons.prems have less: "n - 1 < 0" and nz: "n \<noteq> 0" by simp_all
  show ?case
  proof (cases "c = CHR 0x22")
    case True
    have "replaceFrom [CHR 0x22] new n (c # cs) = new @ replaceFrom [CHR 0x22] new (n - 1) cs"
      using True nz by (subst replaceFrom.simps) simp
    then show ?thesis using True Cons.IH [OF less] by simp
  next
    case False
    have "replaceFrom [CHR 0x22] new n (c # cs) = c # replaceFrom [CHR 0x22] new n cs"
      using False nz by (subst replaceFrom.simps) simp
    then show ?thesis using False Cons.IH [OF Cons.prems] by simp
  qed
qed

text \<open>The lines of a text made of lines without a newline, each ended by one.\<close>

lemma noNewline_append [simp]: "noNewline (a @ b) \<longleftrightarrow> noNewline a \<and> noNewline b"
  by (auto simp: noNewline_def)

lemma noNewline_Cons [simp]: "noNewline (c # s) \<longleftrightarrow> c \<noteq> CHR ''\<newline>'' \<and> noNewline s"
  by (auto simp: noNewline_def)

lemma noNewline_Nil [simp]: "noNewline []"
  by (simp add: noNewline_def)

lemma splitLines_last: "noNewline l \<Longrightarrow> splitLines l = [l]"
  by (induction l) (auto simp: noNewline_def)

lemma splitLines_line:
  "noNewline l \<Longrightarrow> splitLines (l @ CHR ''\<newline>'' # rest) = l # splitLines rest"
  by (induction l) (auto simp: noNewline_def)

lemma splitLines_lines:
  assumes "\<forall>l\<in>set ls. noNewline l" and "noNewline end"
  shows "splitLines (concat (map (\<lambda>l. l @ ''\<newline>'') ls) @ end) = ls @ [end]"
  using assms(1)
proof (induction ls)
  case Nil
  show ?case using assms(2) by (simp add: splitLines_last)
next
  case (Cons l ls)
  then show ?case by (simp add: splitLines_line)
qed

lemma digit_not_newline: "d < 10 \<Longrightarrow> digit d \<noteq> CHR ''\<newline>''"
proof
  assume "d < 10" and "digit d = CHR ''\<newline>''"
  then have "(of_char (digit d) :: nat) = of_char (CHR ''\<newline>'')" by simp
  with \<open>d < 10\<close> show False by (simp add: digit_value)
qed

lemma newline_not_digit: "d < 10 \<Longrightarrow> CHR ''\<newline>'' \<noteq> digit d"
  using digit_not_newline [of d] by auto

lemma itoa_noNewline: "noNewline (itoa n)"
proof (induction n rule: itoa.induct)
  case (1 n)
  show ?case
  proof (cases "n < 10")
    case True
    then show ?thesis by (subst itoa.simps) (simp add: noNewline_def newline_not_digit)
  next
    case False
    with 1 show ?thesis
      by (subst itoa.simps) (simp add: noNewline_def newline_not_digit)
  qed
qed

section \<open>Facts about the three loops\<close>

lemma writeHeader_writes:
  "writeHeader b graphMeta =
     b @ [graphHeader graphMeta]
       @ (if BackgroundColor graphMeta \<noteq> [] then [bgcolorLine graphMeta] else [])
       @ (if FontName graphMeta \<noteq> [] then [fontnameLine graphMeta] else [])
       @ [defaultNodeStyle, defaultEdgeStyle]"
  by (simp add: writeHeader_def Fprintf_def)

lemma writeNodes_append:
  "writeNodes b i ns = b @ map (\<lambda>k. nodeDecl (i + k) (ns ! k)) [0..<length ns]"
proof (induction ns arbitrary: b i)
  case Nil
  show ?case by simp
next
  case (Cons n ns)
  show ?case
    by (simp add: Cons.IH Fprintf_def map_upt_Suc del: upt_Suc)
qed

lemma fillIndexMap_snoc:
  "fillIndexMap m i (ns @ [x]) = (fillIndexMap m i ns)(Name x \<mapsto> i + length ns)"
  by (induction ns arbitrary: m i) simp_all

lemma fillIndexMap_dom: "dom (fillIndexMap m i ns) = dom m \<union> Name ` set ns"
  by (induction ns arbitrary: m i) auto

lemma nodeIndexMap_dom: "dom (nodeIndexMap ns) = Name ` set ns"
  by (simp add: nodeIndexMap_def fillIndexMap_dom)

lemma nodeIndexMap_None: "nodeIndexMap ns name = None \<longleftrightarrow> name \<notin> Name ` set ns"
  using domIff [of name "nodeIndexMap ns"] by (simp add: nodeIndexMap_dom)

text \<open>
  Every store overwrites the entry of the same name, so the map holds, for each
  name, the greatest index that carries it.
\<close>

lemma nodeIndexMap_last:
  "nodeIndexMap ns name = Some k \<longleftrightarrow>
     k < length ns \<and> Name (ns ! k) = name \<and> (\<forall>j<length ns. k < j \<longrightarrow> Name (ns ! j) \<noteq> name)"
proof (induction ns rule: rev_induct)
  case Nil
  show ?case by (simp add: nodeIndexMap_def)
next
  case (snoc x ns)
  have upd: "nodeIndexMap (ns @ [x]) = (nodeIndexMap ns)(Name x \<mapsto> length ns)"
    by (simp add: nodeIndexMap_def fillIndexMap_snoc)
  show ?case
  proof (cases "Name x = name")
    case True
    have "nodeIndexMap (ns @ [x]) name = Some k \<longleftrightarrow> k = length ns"
      using True by (auto simp: upd)
    also have "\<dots> \<longleftrightarrow> k < length (ns @ [x]) \<and> Name ((ns @ [x]) ! k) = name
        \<and> (\<forall>j<length (ns @ [x]). k < j \<longrightarrow> Name ((ns @ [x]) ! j) \<noteq> name)"
      using True by (auto simp: nth_append less_Suc_eq)
    finally show ?thesis .
  next
    case False
    have "nodeIndexMap (ns @ [x]) name = Some k \<longleftrightarrow> nodeIndexMap ns name = Some k"
      using False by (simp add: upd)
    also have "\<dots> \<longleftrightarrow> k < length ns \<and> Name (ns ! k) = name
        \<and> (\<forall>j<length ns. k < j \<longrightarrow> Name (ns ! j) \<noteq> name)"
      by (rule snoc.IH)
    also have "\<dots> \<longleftrightarrow> k < length (ns @ [x]) \<and> Name ((ns @ [x]) ! k) = name
        \<and> (\<forall>j<length (ns @ [x]). k < j \<longrightarrow> Name ((ns @ [x]) ! j) \<noteq> name)"
      using False by (auto simp: nth_append less_Suc_eq)
    finally show ?thesis .
  qed
qed

lemma writeEdge_unresolved:
  "m (From edge) = None \<or> m (To edge) = None \<Longrightarrow> writeEdge m b edge = Inl (unknownNodeError edge)"
  by (auto simp: writeEdge_def split: option.splits)

text \<open>The writes of one iteration, with the flag \<open>hasAttributes\<close> resolved.\<close>

lemma writeEdge_resolved:
  assumes "m (From edge) = Some i" and "m (To edge) = Some j"
  shows \<open>writeEdge m b edge =
     Inr (b @ [''  n'' @ itoa i @ '' -> n'' @ itoa j]
          @ (if Relation edge \<noteq> [] then ['' [label="'' @ Relation edge @ ''"''] else [])
          @ (if Color edge \<noteq> []
             then [(if Relation edge = [] then '' [color="'' else '', color="'') @ Color edge @ ''"'']
             else [])
          @ (if Style edge \<noteq> []
             then [(if Relation edge = [] \<and> Color edge = [] then '' [style="'' else '', style="'')
                   @ Style edge @ ''"'']
             else [])
          @ (if Relation edge \<noteq> [] \<or> Color edge \<noteq> [] then ['']''] else [])
          @ ['';\<newline>''])\<close>
  using assms by (simp add: writeEdge_def Fprintf_def)

lemma writeEdge_Inr_iff:
  "(\<exists>b'. writeEdge m b edge = Inr b') \<longleftrightarrow> m (From edge) \<noteq> None \<and> m (To edge) \<noteq> None"
  by (auto simp: writeEdge_def Let_def split: option.splits prod.splits)

text \<open>What an iteration appends does not depend on what the buffer holds.\<close>

lemma writeEdge_from_empty:
  "writeEdge m b edge = (case writeEdge m [] edge of Inl err \<Rightarrow> Inl err | Inr ws \<Rightarrow> Inr (b @ ws))"
proof (cases "m (From edge) = None \<or> m (To edge) = None")
  case True
  then show ?thesis by (simp add: writeEdge_unresolved)
next
  case False
  then obtain i j where ij: "m (From edge) = Some i" "m (To edge) = Some j" by auto
  show ?thesis
    unfolding writeEdge_resolved [OF ij, of b] writeEdge_resolved [OF ij, of "[]"] by simp
qed

lemma writeEdges_from_empty:
  "writeEdges m b es = (case writeEdges m [] es of Inl err \<Rightarrow> Inl err | Inr ws \<Rightarrow> Inr (b @ ws))"
proof (induction es arbitrary: b)
  case Nil
  show ?case by simp
next
  case (Cons e es)
  show ?case
  proof (cases "writeEdge m [] e")
    case (Inl err)
    then have "writeEdge m b e = Inl err" by (subst writeEdge_from_empty) simp
    with Inl show ?thesis by simp
  next
    case (Inr w1)
    then have b1: "writeEdge m b e = Inr (b @ w1)" by (subst writeEdge_from_empty) simp
    show ?thesis
    proof (cases "writeEdges m [] es")
      case (Inl err)
      then have "writeEdges m (b @ w1) es = Inl err" "writeEdges m w1 es = Inl err"
        using Cons.IH [of "b @ w1"] Cons.IH [of w1] by simp_all
      with Inr b1 show ?thesis by simp
    next
      case (Inr ws)
      then have "writeEdges m (b @ w1) es = Inr (b @ w1 @ ws)" "writeEdges m w1 es = Inr (w1 @ ws)"
        using Cons.IH [of "b @ w1"] Cons.IH [of w1] by simp_all
      with \<open>writeEdge m [] e = Inr w1\<close> b1 show ?thesis by simp
    qed
  qed
qed

lemma writeEdges_append:
  "writeEdges m b (pre @ post) =
     (case writeEdges m b pre of Inl err \<Rightarrow> Inl err | Inr b1 \<Rightarrow> writeEdges m b1 post)"
  by (induction pre arbitrary: b) (simp_all split: sum.splits)

text \<open>
  Each iteration appends one line of text, which starts with a node identifier,
  provided the attribute values hold no newline.
\<close>

lemma escapedSynopsis_noNewline: "noNewline (Synopsis node) \<Longrightarrow> noNewline (escapedSynopsis node)"
  by (auto simp: escapedSynopsis_def strings_Replace_def replaceFrom_quote noNewline_def)

lemma writeEdge_line:
  assumes "writeEdge m b edge = Inr b'"
    and "noNewline (Relation edge)" and "noNewline (Color edge)" and "noNewline (Style edge)"
  shows "\<exists>l. concat b' = concat b @ l @ ''\<newline>'' \<and> noNewline l \<and> prefix ''  n'' l"
proof -
  from assms(1) obtain i j where ij: "m (From edge) = Some i" "m (To edge) = Some j"
    using writeEdge_Inr_iff [of m b edge] by auto
  let ?attrs = \<open>concat
     ((if Relation edge \<noteq> [] then ['' [label="'' @ Relation edge @ ''"''] else [])
      @ (if Color edge \<noteq> []
         then [(if Relation edge = [] then '' [color="'' else '', color="'') @ Color edge @ ''"'']
         else [])
      @ (if Style edge \<noteq> []
         then [(if Relation edge = [] \<and> Color edge = [] then '' [style="'' else '', style="'')
               @ Style edge @ ''"'']
         else [])
      @ (if Relation edge \<noteq> [] \<or> Color edge \<noteq> [] then ['']''] else []))\<close>
  let ?l = "''  n'' @ itoa i @ '' -> n'' @ itoa j @ ?attrs @ '';''"
  have "concat b' = concat b @ ?l @ ''\<newline>''"
    using assms(1) unfolding writeEdge_resolved [OF ij] by auto
  moreover have "noNewline ?l"
    using assms(2-4) by (simp add: itoa_noNewline)
  moreover have "prefix ''  n'' ?l" by simp
  ultimately show ?thesis by blast
qed

lemma writeEdges_lines:
  assumes "writeEdges m b es = Inr b'"
    and "\<forall>e\<in>set es. noNewline (Relation e) \<and> noNewline (Color e) \<and> noNewline (Style e)"
  shows "\<exists>ls. concat b' = concat b @ concat (map (\<lambda>l. l @ ''\<newline>'') ls)
           \<and> (\<forall>l\<in>set ls. noNewline l \<and> prefix ''  n'' l)"
  using assms
proof (induction es arbitrary: b)
  case Nil
  then show ?case by (intro exI [of _ "[]"]) simp
next
  case (Cons e es)
  from Cons.prems(1) obtain b1 where b1: "writeEdge m b e = Inr b1"
    and rest: "writeEdges m b1 es = Inr b'"
    by (auto split: sum.splits)
  from writeEdge_line [OF b1] Cons.prems(2) obtain l where
    l: "concat b1 = concat b @ l @ ''\<newline>''" "noNewline l" "prefix ''  n'' l" by auto
  from Cons.IH [OF rest] Cons.prems(2) obtain ls where
    ls: "concat b' = concat b1 @ concat (map (\<lambda>l. l @ ''\<newline>'') ls)"
        "\<forall>l\<in>set ls. noNewline l \<and> prefix ''  n'' l" by auto
  have "concat b' = concat b @ concat (map (\<lambda>l. l @ ''\<newline>'') (l # ls))"
    using l(1) ls(1) by simp
  moreover have "\<forall>x\<in>set (l # ls). noNewline x \<and> prefix ''  n'' x"
    using l(2,3) ls(2) by simp
  ultimately show ?case by blast
qed

text \<open>The loop over the edges returns at the first edge with an unknown endpoint.\<close>

lemma writeEdges_first_unresolved:
  assumes "\<exists>e\<in>set es. m (From e) = None \<or> m (To e) = None"
  shows "\<exists>pre e post. es = pre @ e # post
           \<and> (\<forall>x\<in>set pre. m (From x) \<noteq> None \<and> m (To x) \<noteq> None)
           \<and> (m (From e) = None \<or> m (To e) = None)
           \<and> writeEdges m b es = Inl (unknownNodeError e)"
  using assms
proof (induction es arbitrary: b)
  case Nil
  then show ?case by simp
next
  case (Cons x xs)
  show ?case
  proof (cases "m (From x) = None \<or> m (To x) = None")
    case True
    then have "writeEdges m b (x # xs) = Inl (unknownNodeError x)"
      by (simp add: writeEdge_unresolved)
    with True show ?thesis by (intro exI [of _ "[]"] exI [of _ x] exI [of _ xs]) simp
  next
    case False
    then obtain b1 where b1: "writeEdge m b x = Inr b1"
      using writeEdge_Inr_iff [of m b x] by auto
    from False Cons.prems have "\<exists>e\<in>set xs. m (From e) = None \<or> m (To e) = None" by auto
    from Cons.IH [OF this, of b1] obtain pre e post where
      E: "xs = pre @ e # post" "\<forall>x\<in>set pre. m (From x) \<noteq> None \<and> m (To x) \<noteq> None"
         "m (From e) = None \<or> m (To e) = None" "writeEdges m b1 xs = Inl (unknownNodeError e)"
      by blast
    have "writeEdges m b (x # xs) = Inl (unknownNodeError e)" using b1 E(4) by simp
    with E False show ?thesis
      by (intro exI [of _ "x # pre"] exI [of _ e] exI [of _ post]) auto
  qed
qed

lemma writeEdges_all_resolved:
  "\<forall>e\<in>set es. m (From e) \<noteq> None \<and> m (To e) \<noteq> None \<Longrightarrow> \<exists>b'. writeEdges m b es = Inr b'"
proof (induction es arbitrary: b)
  case Nil
  show ?case by simp
next
  case (Cons x xs)
  then obtain b1 where b1: "writeEdge m b x = Inr b1"
    using writeEdge_Inr_iff [of m b x] by auto
  with Cons show ?case by simp
qed

text \<open>The shape of every document that is produced.\<close>

lemma buildDocument_edges:
  assumes "buildDocument graphMeta nodes edges = Inr doc"
  shows "\<exists>b3. writeEdges (nodeIndexMap nodes) (writeNodes (writeHeader [] graphMeta) 0 nodes) edges = Inr b3
           \<and> doc = b3 @ [''}'']"
  using assms by (auto simp: buildDocument_def WriteString_def split: sum.splits)

lemma buildDocument_Inr:
  assumes "buildDocument graphMeta nodes edges = Inr doc"
  shows "\<exists>ws. writeEdges (nodeIndexMap nodes) [] edges = Inr ws
           \<and> doc = writeHeader [] graphMeta
                  @ map (\<lambda>i. nodeDecl i (nodes ! i)) [0..<length nodes] @ ws @ [''}'']"
proof -
  from buildDocument_edges [OF assms] obtain b3 where
    b3: "writeEdges (nodeIndexMap nodes) (writeNodes (writeHeader [] graphMeta) 0 nodes) edges = Inr b3"
    and doc: "doc = b3 @ [''}'']" by blast
  from b3 obtain ws where ws: "writeEdges (nodeIndexMap nodes) [] edges = Inr ws"
    and b3': "b3 = writeNodes (writeHeader [] graphMeta) 0 nodes @ ws"
    by (subst (asm) writeEdges_from_empty) (auto split: sum.splits)
  have "doc = writeHeader [] graphMeta
                  @ map (\<lambda>i. nodeDecl i (nodes ! i)) [0..<length nodes] @ ws @ [''}'']"
    using doc b3' by (simp add: writeNodes_append)
  with ws show ?thesis by blast
qed

text \<open>
  The lines of the text of a document, when no string that is written into it
  holds a newline.
\<close>

lemma node_line_not_attribute:
  \<open>prefix ''  n'' l \<Longrightarrow> \<not> prefix ''  bgcolor="'' l \<and> \<not> prefix ''  fontname="'' l\<close>
  by (auto simp: prefix_def)

lemma buildDocument_lines:
  assumes "buildDocument graphMeta nodes edges = Inr doc"
    and "noNewline (GraphName graphMeta)" and "noNewline (BackgroundColor graphMeta)"
    and "noNewline (FontName graphMeta)"
    and "\<forall>n\<in>set nodes. noNewline (Name n) \<and> noNewline (URL n) \<and> noNewline (Synopsis n)"
    and "\<forall>e\<in>set edges. noNewline (Relation e) \<and> noNewline (Color e) \<and> noNewline (Style e)"
  shows \<open>\<exists>ls. splitLines (Bytes doc) =
            ([''digraph '' @ GraphName graphMeta @ '' { '']
             @ (if BackgroundColor graphMeta \<noteq> []
                then [''  bgcolor="'' @ BackgroundColor graphMeta @ ''";''] else [])
             @ (if FontName graphMeta \<noteq> []
                then [''  fontname="'' @ FontName graphMeta @ ''";''] else [])
             @ [''  node [shape=box, style=filled, fillcolor="#e0e0e0", fontname="Arial"];'',
                ''  edge [color="#555555", fontname="Arial"];''])
            @ ls @ [''}'']
          \<and> (\<forall>l\<in>set ls. prefix ''  n'' l)\<close>
proof -
  let ?head = \<open>[''digraph '' @ GraphName graphMeta @ '' { '']
            @ (if BackgroundColor graphMeta \<noteq> []
               then [''  bgcolor="'' @ BackgroundColor graphMeta @ ''";''] else [])
            @ (if FontName graphMeta \<noteq> []
               then [''  fontname="'' @ FontName graphMeta @ ''";''] else [])
            @ [''  node [shape=box, style=filled, fillcolor="#e0e0e0", fontname="Arial"];'',
               ''  edge [color="#555555", fontname="Arial"];'']\<close>
  let ?decl = \<open>\<lambda>i. ''  n'' @ itoa i @ '' [label="'' @ Name (nodes ! i) @ ''", URL="'' @ URL (nodes ! i)
                     @ ''", tooltip="'' @ escapedSynopsis (nodes ! i) @ ''"];''\<close>
  let ?nodeLines = "map ?decl [0..<length nodes]"
  let ?b0 = "writeNodes (writeHeader [] graphMeta) 0 nodes"
  from buildDocument_edges [OF assms(1)] obtain b3 where
    b3: "writeEdges (nodeIndexMap nodes) ?b0 edges = Inr b3" and doc: "doc = b3 @ [''}'']"
    by blast
  from writeEdges_lines [OF b3 assms(6)] obtain es where
    es: "concat b3 = concat ?b0 @ concat (map (\<lambda>l. l @ ''\<newline>'') es)"
        "\<forall>l\<in>set es. noNewline l \<and> prefix ''  n'' l" by blast
  have head: "concat (writeHeader [] graphMeta) = concat (map (\<lambda>l. l @ ''\<newline>'') ?head)"
    by (simp add: writeHeader_writes graphHeader_def bgcolorLine_def fontnameLine_def
        defaultNodeStyle_def defaultEdgeStyle_def)
  have decl: "nodeDecl i (nodes ! i) = ?decl i @ ''\<newline>''" for i
    by (simp add: nodeDecl_def)
  have nodesText: "concat (map (\<lambda>i. nodeDecl i (nodes ! i)) [0..<length nodes])
      = concat (map (\<lambda>l. l @ ''\<newline>'') ?nodeLines)"
    unfolding decl by (simp add: comp_def)
  have docText: "Bytes doc = concat (map (\<lambda>l. l @ ''\<newline>'') (?head @ ?nodeLines @ es)) @ ''}''"
    unfolding Bytes_def doc
    using es(1) head nodesText by (simp add: writeNodes_append)
  have headNN: "\<forall>l\<in>set (?head). noNewline l"
    using assms(2-4) by auto
  have nodeNN: "\<forall>l\<in>set (?nodeLines). noNewline l"
    using assms(5) by (auto simp: itoa_noNewline escapedSynopsis_noNewline)
  have allNN: "\<forall>l\<in>set (?head @ ?nodeLines @ es). noNewline l"
    using headNN nodeNN es(2) by (simp add: ball_Un)
  have "splitLines (Bytes doc) = (?head @ ?nodeLines @ es) @ [''}'']"
    unfolding docText by (rule splitLines_lines [OF allNN]) simp
  then have A: "splitLines (Bytes doc) = ?head @ (?nodeLines @ es) @ [''}'']" by simp
  have B: "\<forall>l\<in>set (?nodeLines @ es). prefix ''  n'' l"
    using es(2) by auto
  show ?thesis
  proof (intro exI conjI)
    show "splitLines (Bytes doc) = ?head @ (?nodeLines @ es) @ [''}'']" by (rule A)
    show "\<forall>l\<in>set (?nodeLines @ es). prefix ''  n'' l" by (rule B)
  qed
qed

text \<open>
  A document exists exactly when every endpoint of every edge names a node
  (\<open>writeEdges_first_unresolved\<close> gives the other direction).
\<close>

lemma buildDocument_succeeds:
  assumes "\<forall>e\<in>set edges. From e \<in> Name ` set nodes \<and> To e \<in> Name ` set nodes"
  shows "\<exists>doc. buildDocument graphMeta nodes edges = Inr doc"
proof -
  from assms have "\<forall>e\<in>set edges. nodeIndexMap nodes (From e) \<noteq> None \<and> nodeIndexMap nodes (To e) \<noteq> None"
    by (simp add: nodeIndexMap_None)
  from writeEdges_all_resolved [OF this, of "writeNodes (writeHeader [] graphMeta) 0 nodes"]
  show ?thesis by (auto simp: buildDocument_def)
qed

lemma renderGraph_reference_error:
  assumes "buildDocument graphMeta nodes edges = Inl err"
  shows "renderGraph env graphMeta nodes edges dotOutput = ([], Inl err)"
  using assms by (simp add: renderGraph_def)

text \<open>
  Where \<open>Relation\<close> or \<open>Color\<close> is present, or \<open>Style\<close> is absent, the source
  writes the statement of the specification.
\<close>

lemma edge_statement_refines_spec:
  assumes "m (From edge) = Some i" and "m (To edge) = Some j"
    and "Relation edge \<noteq> [] \<or> Color edge \<noteq> [] \<or> Style edge = []"
  shows "\<exists>ws. writeEdge m b edge = Inr (b @ ws) \<and> concat ws = specEdgeStatement i j edge"
  using assms(3) unfolding writeEdge_resolved [OF assms(1,2)]
  by (auto simp: specEdgeStatement_def edgeAttributes_def)

text \<open>
  Where only \<open>Style\<close> is present, the list is opened and the statement ends
  without the closing bracket: \<open>hasAttributes\<close> is still false at line 136.
\<close>

lemma style_only_edge_unclosed:
  assumes "m (From edge) = Some i" and "m (To edge) = Some j"
    and "Relation edge = []" and "Color edge = []" and "Style edge \<noteq> []"
  shows \<open>writeEdge m b edge =
     Inr (b @ [''  n'' @ itoa i @ '' -> n'' @ itoa j, '' [style="'' @ Style edge @ ''"'', '';\<newline>''])\<close>
  using assms(3-5) unfolding writeEdge_resolved [OF assms(1,2)] by simp

section \<open>The concrete model\<close>

lemma exampleNodes_index:
  "nodeIndexMap exampleNodes ''main'' = Some 0" "nodeIndexMap exampleNodes ''pkg1'' = Some 1"
  by (simp_all add: nodeIndexMap_def exampleNodes_def)

lemma example_header:
  \<open>writeHeader [] exampleMeta = take 4 exampleDocument\<close>
  by (simp add: writeHeader_writes exampleMeta_def exampleDocument_def graphHeader_def
      bgcolorLine_def defaultNodeStyle_def defaultEdgeStyle_def)

lemma example_nodeDecls:
  \<open>nodeDecl 0 (exampleNodes ! 0) = exampleDocument ! 4\<close>
  \<open>nodeDecl (Suc 0) (exampleNodes ! Suc 0) = exampleDocument ! 5\<close>
  by (simp_all add: exampleNodes_def exampleDocument_def nodeDecl_def escapedSynopsis_def
      strings_Replace_def replaceFrom_quote itoa_0 itoa_Suc_0)

lemma example_nodes:
  \<open>writeNodes b 0 exampleNodes = b @ [exampleDocument ! 4, exampleDocument ! 5]\<close>
proof -
  have "[0..<length exampleNodes] = [0, 1]" by (simp add: exampleNodes_def upt_conv_Cons)
  then show ?thesis by (simp add: writeNodes_append example_nodeDecls)
qed

lemma example_edges:
  \<open>writeEdges (nodeIndexMap exampleNodes) b exampleEdges
     = Inr (b @ [''  n0 -> n1'', '' [label="depends_on"'', '']'', '';\<newline>''])\<close>
proof -
  have \<open>writeEdge (nodeIndexMap exampleNodes) b (hd exampleEdges)
     = Inr (b @ [''  n0 -> n1'', '' [label="depends_on"'', '']'', '';\<newline>''])\<close>
    by (subst writeEdge_resolved [where i = 0 and j = 1])
       (simp_all add: exampleEdges_def exampleNodes_index itoa_0 itoa_Suc_0)
  then show ?thesis by (simp add: exampleEdges_def)
qed

lemma example_document:
  "buildDocument exampleMeta exampleNodes exampleEdges = Inr exampleDocument"
proof -
  have \<open>exampleDocument = take 4 exampleDocument @ [exampleDocument ! 4, exampleDocument ! 5]
     @ [''  n0 -> n1'', '' [label="depends_on"'', '']'', '';\<newline>''] @ [''}'']\<close>
    by (simp add: exampleDocument_def)
  then show ?thesis
    by (simp add: buildDocument_def example_header example_nodes example_edges WriteString_def)
qed

lemma font_document:
  "buildDocument fontMeta exampleNodes exampleEdges = Inr fontDocument"
proof -
  have h: \<open>writeHeader [] fontMeta = [hd exampleDocument, ''  fontname="Courier";\<newline>'',
      exampleDocument ! 2, exampleDocument ! 3]\<close>
    by (simp add: writeHeader_writes fontMeta_def exampleDocument_def graphHeader_def
        fontnameLine_def defaultNodeStyle_def defaultEdgeStyle_def)
  have \<open>fontDocument = [hd exampleDocument, ''  fontname="Courier";\<newline>'',
      exampleDocument ! 2, exampleDocument ! 3] @ [exampleDocument ! 4, exampleDocument ! 5]
     @ [''  n0 -> n1'', '' [label="depends_on"'', '']'', '';\<newline>''] @ [''}'']\<close>
    by (simp add: fontDocument_def exampleDocument_def)
  then show ?thesis
    by (simp add: buildDocument_def h example_nodes example_edges WriteString_def)
qed

lemma bare_document:
  "buildDocument exampleMeta exampleNodes (exampleEdges @ [exampleBareEdge]) = Inr bareDocument"
proof -
  let ?b0 = "writeNodes (writeHeader [] exampleMeta) 0 exampleNodes"
  let ?b1 = \<open>?b0 @ [''  n0 -> n1'', '' [label="depends_on"'', '']'', '';\<newline>'']\<close>
  have \<open>writeEdge (nodeIndexMap exampleNodes) ?b1 exampleBareEdge
     = Inr (?b1 @ [''  n1 -> n0'', '';\<newline>''])\<close>
    by (subst writeEdge_resolved [where i = 1 and j = 0])
       (simp_all add: exampleBareEdge_def exampleNodes_index itoa_0 itoa_Suc_0)
  then have \<open>writeEdges (nodeIndexMap exampleNodes) ?b0 (exampleEdges @ [exampleBareEdge])
     = Inr (?b1 @ [''  n1 -> n0'', '';\<newline>''])\<close>
    by (simp add: writeEdges_append example_edges)
  moreover have \<open>bareDocument = take 4 exampleDocument @ [exampleDocument ! 4, exampleDocument ! 5]
     @ [''  n0 -> n1'', '' [label="depends_on"'', '']'', '';\<newline>'']
     @ [''  n1 -> n0'', '';\<newline>''] @ [''}'']\<close>
    by (simp add: bareDocument_def exampleDocument_def)
  ultimately show ?thesis
    by (simp add: buildDocument_def example_header example_nodes WriteString_def)
qed

lemma example_noNewline:
  "noNewline (GraphName exampleMeta)" "noNewline (BackgroundColor exampleMeta)"
  "noNewline (FontName exampleMeta)"
  "noNewline (GraphName fontMeta)" "noNewline (BackgroundColor fontMeta)"
  "noNewline (FontName fontMeta)"
  "\<forall>n\<in>set exampleNodes. noNewline (Name n) \<and> noNewline (URL n) \<and> noNewline (Synopsis n)"
  "\<forall>e\<in>set exampleEdges. noNewline (Relation e) \<and> noNewline (Color e) \<and> noNewline (Style e)"
  by (simp_all add: exampleMeta_def fontMeta_def exampleNodes_def exampleEdges_def)

section \<open>Properties of the specification\<close>

subsection \<open>Duplicate node names\<close>

text \<open>
  Claim C1, as the source has it: the name-to-index map holds, for a name that
  several nodes carry, the index of the last of them in input order, and an edge
  whose \<open>From\<close> or \<open>To\<close> is that name is written with the identifier of that
  last node.
\<close>

theorem last_occurrence_wins:
  assumes "i < length nodes" and "Name (nodes ! i) = From edge"
    and "\<forall>k<length nodes. i < k \<longrightarrow> Name (nodes ! k) \<noteq> From edge"
    and "j < length nodes" and "Name (nodes ! j) = To edge"
    and "\<forall>k<length nodes. j < k \<longrightarrow> Name (nodes ! k) \<noteq> To edge"
  shows "nodeIndexMap nodes (From edge) = Some i \<and> nodeIndexMap nodes (To edge) = Some j
     \<and> (\<exists>ws. writeEdge (nodeIndexMap nodes) b edge
                 = Inr (b @ (''  n'' @ itoa i @ '' -> n'' @ itoa j) # ws))"
proof -
  have f: "nodeIndexMap nodes (From edge) = Some i"
    using assms(1-3) by (simp add: nodeIndexMap_last)
  have t: "nodeIndexMap nodes (To edge) = Some j"
    using assms(4-6) by (simp add: nodeIndexMap_last)
  show ?thesis
    unfolding writeEdge_resolved [OF f t] using f t by simp
qed

theorem last_occurrence_wins_witness:
  \<open>nodeIndexMap [\<lparr>Name = ''a'', Path = [], Synopsis = [], URL = ''/first''\<rparr>,
                 \<lparr>Name = ''b'', Path = [], Synopsis = [], URL = []\<rparr>,
                 \<lparr>Name = ''a'', Path = [], Synopsis = [], URL = ''/second''\<rparr>] ''a'' = Some 2
   \<and> (\<exists>ws. writeEdge
      (nodeIndexMap [\<lparr>Name = ''a'', Path = [], Synopsis = [], URL = ''/first''\<rparr>,
                     \<lparr>Name = ''b'', Path = [], Synopsis = [], URL = []\<rparr>,
                     \<lparr>Name = ''a'', Path = [], Synopsis = [], URL = ''/second''\<rparr>]) []
      \<lparr>From = ''a'', To = ''b'', Relation = ''uses'', Color = [], Style = []\<rparr>
    = Inr (''  n2 -> n1'' # ws))\<close>
proof -
  let ?nodes = "[\<lparr>Name = ''a'', Path = [], Synopsis = [], URL = ''/first''\<rparr>,
                 \<lparr>Name = ''b'', Path = [], Synopsis = [], URL = []\<rparr>,
                 \<lparr>Name = ''a'', Path = [], Synopsis = [], URL = ''/second''\<rparr>]"
  let ?edge = "\<lparr>From = ''a'', To = ''b'', Relation = ''uses'', Color = [], Style = []\<rparr>"
  have lt: "k < 3 \<longleftrightarrow> k = 0 \<or> k = 1 \<or> k = 2" for k :: nat by auto
  have 1: "2 < length ?nodes" by simp
  have 2: "Name (?nodes ! 2) = From ?edge" by simp
  have 3: "\<forall>k<length ?nodes. 2 < k \<longrightarrow> Name (?nodes ! k) \<noteq> From ?edge" by simp
  have 4: "1 < length ?nodes" by simp
  have 5: "Name (?nodes ! 1) = To ?edge" by simp
  have 6: "\<forall>k<length ?nodes. 1 < k \<longrightarrow> Name (?nodes ! k) \<noteq> To ?edge" by (simp add: lt)
  show ?thesis
    using last_occurrence_wins [OF 1 2 3 4 5 6, of "[]"] by (simp add: itoa_Suc_0 itoa_2)
qed

text \<open>
  The claim as written asks for the first occurrence. With two nodes named
  \<open>a\<close>, the first of them at index 0, the edge from \<open>a\<close> to \<open>a\<close> is written
  with \<open>n1\<close>.
\<close>

theorem first_occurrence_counterexample:
  \<open>Name ([\<lparr>Name = ''a'', Path = [], Synopsis = [], URL = ''/first''\<rparr>,
           \<lparr>Name = ''a'', Path = [], Synopsis = [], URL = ''/second''\<rparr>] ! 0) = ''a''
   \<and> writeEdge
      (nodeIndexMap [\<lparr>Name = ''a'', Path = [], Synopsis = [], URL = ''/first''\<rparr>,
                     \<lparr>Name = ''a'', Path = [], Synopsis = [], URL = ''/second''\<rparr>]) []
      \<lparr>From = ''a'', To = ''a'', Relation = [], Color = [], Style = []\<rparr>
    = Inr [''  n1 -> n1'', '';\<newline>'']\<close>
  by (simp add: nodeIndexMap_def writeEdge_def Fprintf_def itoa_Suc_0)

subsection \<open>The attribute list of an edge\<close>

text \<open>
  Claim C2 at an edge that has a style and neither relation nor color: the
  source opens the attribute list and never closes it, where the statement of
  the specification has the closing bracket.
\<close>

theorem style_only_edge_statement:
  \<open>writeEdge
      (nodeIndexMap [\<lparr>Name = ''a'', Path = [], Synopsis = [], URL = []\<rparr>,
                     \<lparr>Name = ''b'', Path = [], Synopsis = [], URL = []\<rparr>]) []
      \<lparr>From = ''a'', To = ''b'', Relation = [], Color = [], Style = ''dashed''\<rparr>
    = Inr [''  n0 -> n1'', '' [style="dashed"'', '';\<newline>'']
   \<and> specEdgeStatement 0 1 \<lparr>From = ''a'', To = ''b'', Relation = [], Color = [], Style = ''dashed''\<rparr>
    = ''  n0 -> n1 [style="dashed"];\<newline>''\<close>
  by (simp add: nodeIndexMap_def writeEdge_def Fprintf_def specEdgeStatement_def edgeAttributes_def
      itoa_0 itoa_Suc_0)

subsection \<open>Edges that name an unknown node\<close>

text \<open>
  Claim C3: when some edge has a \<open>From\<close> or a \<open>To\<close> that is the name of no
  node, renderGraph returns the reference error of the first such edge in input
  order, the message contains a name of that edge that no node carries, no
  document is built, and the trace of effects is empty: nothing was written to
  a file and the process was not started.
\<close>

theorem unknown_node_aborts_render:
  assumes "edge \<in> set edges"
    and "From edge \<notin> Name ` set nodes \<or> To edge \<notin> Name ` set nodes"
  shows "\<exists>pre e post bad. edges = pre @ e # post
           \<and> (\<forall>x\<in>set pre. From x \<in> Name ` set nodes \<and> To x \<in> Name ` set nodes)
           \<and> (bad = From e \<or> bad = To e) \<and> bad \<notin> Name ` set nodes
           \<and> sublist bad (errorMessage (unknownNodeError e))
           \<and> buildDocument graphMeta nodes edges = Inl (unknownNodeError e)
           \<and> renderGraph env graphMeta nodes edges dotOutput = ([], Inl (unknownNodeError e))"
proof -
  let ?m = "nodeIndexMap nodes"
  from assms have "\<exists>e\<in>set edges. ?m (From e) = None \<or> ?m (To e) = None"
    by (auto simp: nodeIndexMap_None)
  from writeEdges_first_unresolved [OF this, of "writeNodes (writeHeader [] graphMeta) 0 nodes"]
  obtain pre e post where E: "edges = pre @ e # post" "?m (From e) = None \<or> ?m (To e) = None"
    "writeEdges ?m (writeNodes (writeHeader [] graphMeta) 0 nodes) edges = Inl (unknownNodeError e)"
    and P: "\<forall>x\<in>set pre. ?m (From x) \<noteq> None \<and> ?m (To x) \<noteq> None"
    by blast
  have pre: "\<forall>x\<in>set pre. From x \<in> Name ` set nodes \<and> To x \<in> Name ` set nodes"
    using P by (simp add: nodeIndexMap_None)
  have doc: "buildDocument graphMeta nodes edges = Inl (unknownNodeError e)"
    using E(3) by (simp add: buildDocument_def)
  then have run: "renderGraph env graphMeta nodes edges dotOutput = ([], Inl (unknownNodeError e))"
    by (simp add: renderGraph_def)
  note mem = E(1)
  have sf: "sublist (From e) (errorMessage (unknownNodeError e))"
    unfolding unknownNodeError_def errorMessage.simps
    by (rule sublist_appendI [where ps = "''error: edge refers to unknown node(s) from: ''"
          and ss = "'', to: '' @ To e"])
  have st: "sublist (To e) (errorMessage (unknownNodeError e))"
    unfolding unknownNodeError_def errorMessage.simps
    using sublist_appendI [of "To e"
        "''error: edge refers to unknown node(s) from: '' @ From e @ '', to: ''" "[]"]
    by simp
  from E(2) show ?thesis
  proof
    assume "?m (From e) = None"
    then have "From e \<notin> Name ` set nodes" by (simp add: nodeIndexMap_None)
    with mem pre sf doc run show ?thesis by blast
  next
    assume "?m (To e) = None"
    then have "To e \<notin> Name ` set nodes" by (simp add: nodeIndexMap_None)
    with mem pre st doc run show ?thesis by blast
  qed
qed

theorem unknown_node_aborts_render_witness:
  \<open>renderGraph \<lparr>WriteFile = (\<lambda>path data. None), RunDot = (\<lambda>stdin. Inr stdin)\<rparr>
      \<lparr>GraphName = ''G'', BackgroundColor = [], FontName = []\<rparr>
      [\<lparr>Name = ''main'', Path = [], Synopsis = [], URL = []\<rparr>]
      [\<lparr>From = ''main'', To = ''ghost'', Relation = [], Color = [], Style = []\<rparr>]
      ''out.dot''
    = ([], Inl (Error ''error: edge refers to unknown node(s) from: main, to: ghost''))\<close>
proof -
  let ?nodes = "[\<lparr>Name = ''main'', Path = [], Synopsis = [], URL = []\<rparr>]"
  let ?edge = "\<lparr>From = ''main'', To = ''ghost'', Relation = [], Color = [], Style = []\<rparr>"
  have 1: "?edge \<in> set [?edge]" by simp
  have 2: "From ?edge \<notin> Name ` set ?nodes \<or> To ?edge \<notin> Name ` set ?nodes" by simp
  from unknown_node_aborts_render [OF 1 2,
        of "\<lparr>GraphName = ''G'', BackgroundColor = [], FontName = []\<rparr>"
           "\<lparr>WriteFile = (\<lambda>path data. None), RunDot = (\<lambda>stdin. Inr stdin)\<rparr>" "''out.dot''"]
  obtain pre e post where split: "[?edge] = pre @ e # post"
    and run: "renderGraph \<lparr>WriteFile = (\<lambda>path data. None), RunDot = (\<lambda>stdin. Inr stdin)\<rparr>
      \<lparr>GraphName = ''G'', BackgroundColor = [], FontName = []\<rparr> ?nodes [?edge] ''out.dot''
      = ([], Inl (unknownNodeError e))"
    by blast
  from split have "e = ?edge" by (simp add: Cons_eq_append_conv)
  with run show ?thesis by (simp add: unknownNodeError_def)
qed

subsection \<open>Node declarations\<close>

text \<open>
  Claim C4: in every document that is produced, the header is followed by one
  declaration for each node, the node at position \<open>i\<close> of the input under the
  identifier \<open>n\<close> followed by the decimal form of \<open>i\<close>, for \<open>i\<close> from 0 to
  the number of nodes less one in this order; these identifiers are pairwise
  different, whatever the names of the nodes are.
\<close>

theorem positional_identifiers:
  assumes "buildDocument graphMeta nodes edges = Inr doc"
  shows \<open>(\<exists>ws. doc = writeHeader [] graphMeta
              @ map (\<lambda>i. ''  n'' @ itoa i @ '' [label="'' @ Name (nodes ! i)
                          @ ''", URL="'' @ URL (nodes ! i)
                          @ ''", tooltip="'' @ escapedSynopsis (nodes ! i) @ ''"];\<newline>'')
                    [0..<length nodes]
              @ ws @ [''}''])
    \<and> distinct (map (\<lambda>i. ''n'' @ itoa i) [0..<length nodes])\<close>
proof -
  have "inj_on (\<lambda>i. ''n'' @ itoa i) (set [0..<length nodes])"
    by (rule inj_onI) (simp add: itoa_inj)
  then have "distinct (map (\<lambda>i. ''n'' @ itoa i) [0..<length nodes])"
    by (simp add: distinct_map)
  moreover from buildDocument_Inr [OF assms] obtain ws where
    "doc = writeHeader [] graphMeta
             @ map (\<lambda>i. nodeDecl i (nodes ! i)) [0..<length nodes] @ ws @ [''}'']"
    by blast
  ultimately show ?thesis by (auto simp: nodeDecl_def)
qed

theorem positional_identifiers_witness:
  \<open>buildDocument exampleMeta exampleNodes exampleEdges = Inr exampleDocument
   \<and> (\<exists>ws. exampleDocument = writeHeader [] exampleMeta
              @ [''  n0 [label="main", URL="/main", tooltip="Main Application"];\<newline>'',
                 ''  n1 [label="pkg1", URL="/pkg1", tooltip="First Package"];\<newline>'']
              @ ws @ [''}''])
   \<and> distinct [''n0'', ''n1'']\<close>
proof -
  have idx: "[0..<length exampleNodes] = [0, Suc 0]"
    by (simp add: exampleNodes_def upt_conv_Cons)
  show ?thesis
    using positional_identifiers [OF example_document] example_document
    unfolding idx
    by (simp add: exampleNodes_def escapedSynopsis_def strings_Replace_def replaceFrom_quote
        itoa_0 itoa_Suc_0)
qed




subsection \<open>Edge statements\<close>

text \<open>
  Claim C6: in every document that is produced, an edge of the input whose
  relation, color and style are empty stands as the bare statement from the
  identifier of its \<open>From\<close> node to the identifier of its \<open>To\<close> node, ended
  by a semicolon and a newline, with no attribute list; it follows what the
  header, the nodes and the edges before it have written and is followed by the
  statements of the edges after it and the closing brace.
\<close>

theorem bare_edge_statement:
  assumes "buildDocument graphMeta nodes edges = Inr doc"
    and "edges = pre @ edge # post"
    and "Relation edge = []" and "Color edge = []" and "Style edge = []"
  shows "\<exists>i j before after.
           nodeIndexMap nodes (From edge) = Some i \<and> nodeIndexMap nodes (To edge) = Some j
         \<and> writeEdges (nodeIndexMap nodes) (writeNodes (writeHeader [] graphMeta) 0 nodes) pre
             = Inr before
         \<and> writeEdges (nodeIndexMap nodes) [] post = Inr after
         \<and> doc = before @ [''  n'' @ itoa i @ '' -> n'' @ itoa j, '';\<newline>''] @ after @ [''}'']
         \<and> Bytes doc = Bytes before @ ''  n'' @ itoa i @ '' -> n'' @ itoa j @ '';\<newline>''
                          @ Bytes after @ ''}''"
proof -
  let ?m = "nodeIndexMap nodes"
  let ?b0 = "writeNodes (writeHeader [] graphMeta) 0 nodes"
  from buildDocument_edges [OF assms(1)] obtain b3 where
    b3: "writeEdges ?m ?b0 (pre @ edge # post) = Inr b3" and doc: "doc = b3 @ [''}'']"
    unfolding assms(2) by blast
  from b3 obtain before where before: "writeEdges ?m ?b0 pre = Inr before"
    and rest: "writeEdges ?m before (edge # post) = Inr b3"
    by (auto simp: writeEdges_append split: sum.splits)
  from rest obtain b2 where b2: "writeEdge ?m before edge = Inr b2"
    and tail: "writeEdges ?m b2 post = Inr b3"
    by (auto split: sum.splits)
  from b2 obtain i j where ij: "?m (From edge) = Some i" "?m (To edge) = Some j"
    using writeEdge_Inr_iff [of ?m before edge] by auto
  have b2': "b2 = before @ [''  n'' @ itoa i @ '' -> n'' @ itoa j, '';\<newline>'']"
    using b2 assms(3-5) unfolding writeEdge_resolved [OF ij] by simp
  from tail obtain after where after: "writeEdges ?m [] post = Inr after" and b3': "b3 = b2 @ after"
    by (subst (asm) writeEdges_from_empty) (auto split: sum.splits)
  have d: "doc = before @ [''  n'' @ itoa i @ '' -> n'' @ itoa j, '';\<newline>''] @ after @ [''}'']"
    using doc b3' b2' by simp
  then have "Bytes doc = Bytes before @ ''  n'' @ itoa i @ '' -> n'' @ itoa j @ '';\<newline>''
                          @ Bytes after @ ''}''"
    by (simp add: Bytes_def)
  with ij before after d show ?thesis by blast
qed

theorem bare_edge_statement_witness:
  \<open>buildDocument exampleMeta exampleNodes (exampleEdges @ [exampleBareEdge]) = Inr bareDocument
   \<and> (\<exists>before.
         writeEdges (nodeIndexMap exampleNodes)
           (writeNodes (writeHeader [] exampleMeta) 0 exampleNodes) exampleEdges = Inr before
       \<and> bareDocument = before @ [''  n1 -> n0'', '';\<newline>''] @ [''}''])\<close>
proof -
  have split: "exampleEdges @ [exampleBareEdge] = exampleEdges @ exampleBareEdge # []" by simp
  have bare: "Relation exampleBareEdge = []" "Color exampleBareEdge = []" "Style exampleBareEdge = []"
    by (simp_all add: exampleBareEdge_def)
  from bare_edge_statement [OF bare_document split bare] obtain i j before after where
    i: "nodeIndexMap exampleNodes (From exampleBareEdge) = Some i"
    and j: "nodeIndexMap exampleNodes (To exampleBareEdge) = Some j"
    and before: "writeEdges (nodeIndexMap exampleNodes)
           (writeNodes (writeHeader [] exampleMeta) 0 exampleNodes) exampleEdges = Inr before"
    and after: "writeEdges (nodeIndexMap exampleNodes) [] [] = Inr after"
    and doc: "bareDocument = before @ [''  n'' @ itoa i @ '' -> n'' @ itoa j, '';\<newline>'']
                @ after @ [''}'']"
    by blast
  from i have "i = 1" by (simp add: exampleBareEdge_def exampleNodes_index)
  moreover from j have "j = 0" by (simp add: exampleBareEdge_def exampleNodes_index)
  moreover from after have "after = []" by simp
  ultimately have "bareDocument = before @ [''  n1 -> n0'', '';\<newline>''] @ [''}'']"
    using doc by (simp add: itoa_0 itoa_Suc_0)
  with before bare_document show ?thesis by blast
qed

text \<open>
  Claim C10: for an edge with an unknown endpoint the error message is the
  fixed text followed by the \<open>From\<close> name and the \<open>To\<close> name of the edge, the
  same whether \<open>From\<close>, \<open>To\<close> or both are unknown.
\<close>

theorem reference_error_names_both_endpoints:
  assumes "m (From edge) = None \<or> m (To edge) = None"
  shows "writeEdge m b edge =
     Inl (Error (''error: edge refers to unknown node(s) from: '' @ From edge @ '', to: '' @ To edge))"
  using assms by (simp add: writeEdge_unresolved unknownNodeError_def)

theorem reference_error_names_both_endpoints_witness:
  \<open>writeEdge (nodeIndexMap exampleNodes) []
      \<lparr>From = ''ghost'', To = ''main'', Relation = [], Color = [], Style = []\<rparr>
    = Inl (Error ''error: edge refers to unknown node(s) from: ghost, to: main'')
   \<and> writeEdge (nodeIndexMap exampleNodes) []
      \<lparr>From = ''main'', To = ''ghost'', Relation = [], Color = [], Style = []\<rparr>
    = Inl (Error ''error: edge refers to unknown node(s) from: main, to: ghost'')\<close>
proof -
  let ?m = "nodeIndexMap exampleNodes"
  let ?e1 = "\<lparr>From = ''ghost'', To = ''main'', Relation = [], Color = [], Style = []\<rparr>"
  let ?e2 = "\<lparr>From = ''main'', To = ''ghost'', Relation = [], Color = [], Style = []\<rparr>"
  have 1: "?m (From ?e1) = None \<or> ?m (To ?e1) = None"
    by (simp add: nodeIndexMap_def exampleNodes_def)
  have 2: "?m (From ?e2) = None \<or> ?m (To ?e2) = None"
    by (simp add: nodeIndexMap_def exampleNodes_def)
  show ?thesis
    using reference_error_names_both_endpoints [OF 1, of "[]"]
      reference_error_names_both_endpoints [OF 2, of "[]"] by simp
qed

subsection \<open>Graph attributes\<close>

text \<open>
  Claim C7, for strings without a newline: when the graph name, the background
  color, the font name, the name, url and synopsis of every node and the
  relation, color and style of every edge hold no newline, the text of a
  document has a line starting as a \<open>bgcolor\<close> attribute exactly when
  \<open>BackgroundColor\<close> is not empty, and a line starting as a \<open>fontname\<close>
  attribute exactly when \<open>FontName\<close> is not empty; such a line is the attribute
  with the value of the metadata, and the lines that are present stand between
  the header and the two default declarations.
\<close>

theorem graph_attribute_lines:
  assumes "buildDocument graphMeta nodes edges = Inr doc"
    and "noNewline (GraphName graphMeta)" and "noNewline (BackgroundColor graphMeta)"
    and "noNewline (FontName graphMeta)"
    and "\<forall>n\<in>set nodes. noNewline (Name n) \<and> noNewline (URL n) \<and> noNewline (Synopsis n)"
    and "\<forall>e\<in>set edges. noNewline (Relation e) \<and> noNewline (Color e) \<and> noNewline (Style e)"
  shows \<open>((\<exists>l\<in>set (splitLines (Bytes doc)). prefix ''  bgcolor="'' l)
            \<longleftrightarrow> BackgroundColor graphMeta \<noteq> [])
       \<and> ((\<exists>l\<in>set (splitLines (Bytes doc)). prefix ''  fontname="'' l)
            \<longleftrightarrow> FontName graphMeta \<noteq> [])
       \<and> (\<forall>l\<in>set (splitLines (Bytes doc)).
             prefix ''  bgcolor="'' l \<longrightarrow> l = ''  bgcolor="'' @ BackgroundColor graphMeta @ ''";'')
       \<and> (\<forall>l\<in>set (splitLines (Bytes doc)).
             prefix ''  fontname="'' l \<longrightarrow> l = ''  fontname="'' @ FontName graphMeta @ ''";'')
       \<and> (\<exists>rest. splitLines (Bytes doc) =
             ([''digraph '' @ GraphName graphMeta @ '' { '']
              @ (if BackgroundColor graphMeta \<noteq> []
                 then [''  bgcolor="'' @ BackgroundColor graphMeta @ ''";''] else [])
              @ (if FontName graphMeta \<noteq> []
                 then [''  fontname="'' @ FontName graphMeta @ ''";''] else [])
              @ [''  node [shape=box, style=filled, fillcolor="#e0e0e0", fontname="Arial"];'',
                 ''  edge [color="#555555", fontname="Arial"];''])
             @ rest)\<close>
proof -
  define hdr where "hdr = ''digraph '' @ GraphName graphMeta @ '' { ''"
  define bgl where \<open>bgl = ''  bgcolor="'' @ BackgroundColor graphMeta @ ''";''\<close>
  define fnl where \<open>fnl = ''  fontname="'' @ FontName graphMeta @ ''";''\<close>
  define dn where
    \<open>dn = ''  node [shape=box, style=filled, fillcolor="#e0e0e0", fontname="Arial"];''\<close>
  define de where \<open>de = ''  edge [color="#555555", fontname="Arial"];''\<close>
  define isBg where \<open>isBg = prefix ''  bgcolor="''\<close>
  define isFn where \<open>isFn = prefix ''  fontname="''\<close>
  from buildDocument_lines [OF assms] obtain ls where
    lines: "splitLines (Bytes doc) =
            ([hdr] @ (if BackgroundColor graphMeta \<noteq> [] then [bgl] else [])
             @ (if FontName graphMeta \<noteq> [] then [fnl] else []) @ [dn, de])
            @ ls @ [''}'']"
    and ls: "\<forall>l\<in>set ls. prefix ''  n'' l"
    unfolding hdr_def bgl_def fnl_def dn_def de_def by blast
  have other: "\<forall>l\<in>set ls. \<not> isBg l \<and> \<not> isFn l"
    unfolding isBg_def isFn_def using ls node_line_not_attribute by blast
  have fixed: "\<not> isBg hdr" "\<not> isFn hdr" "isBg bgl" "\<not> isFn bgl" "\<not> isBg fnl" "isFn fnl"
    "\<not> isBg dn" "\<not> isFn dn" "\<not> isBg de" "\<not> isFn de" "\<not> isBg ''}''" "\<not> isFn ''}''"
    by (simp_all add: isBg_def isFn_def hdr_def bgl_def fnl_def dn_def de_def)
  have a: "(\<exists>l\<in>set (splitLines (Bytes doc)). isBg l) \<longleftrightarrow> BackgroundColor graphMeta \<noteq> []"
    unfolding lines using other fixed by auto
  have b: "(\<exists>l\<in>set (splitLines (Bytes doc)). isFn l) \<longleftrightarrow> FontName graphMeta \<noteq> []"
    unfolding lines using other fixed by auto
  have c: "\<forall>l\<in>set (splitLines (Bytes doc)). isBg l \<longrightarrow> l = bgl"
    unfolding lines using other fixed by auto
  have d: "\<forall>l\<in>set (splitLines (Bytes doc)). isFn l \<longrightarrow> l = fnl"
    unfolding lines using other fixed by auto
  have e: "\<exists>rest. splitLines (Bytes doc) =
             ([hdr] @ (if BackgroundColor graphMeta \<noteq> [] then [bgl] else [])
              @ (if FontName graphMeta \<noteq> [] then [fnl] else []) @ [dn, de]) @ rest"
    using lines by (rule exI [of _ "ls @ [''}'']"])
  from a b c d e show ?thesis
    unfolding isBg_def isFn_def hdr_def bgl_def fnl_def dn_def de_def by (intro conjI)
qed

theorem graph_attribute_lines_witness:
  \<open>buildDocument exampleMeta exampleNodes exampleEdges = Inr exampleDocument
   \<and> ''  bgcolor="lightgray";'' \<in> set (splitLines (Bytes exampleDocument))
   \<and> FontName exampleMeta = []
   \<and> \<not> (\<exists>l\<in>set (splitLines (Bytes exampleDocument)). prefix ''  fontname="'' l)
   \<and> buildDocument fontMeta exampleNodes exampleEdges = Inr fontDocument
   \<and> ''  fontname="Courier";'' \<in> set (splitLines (Bytes fontDocument))
   \<and> BackgroundColor fontMeta = []
   \<and> \<not> (\<exists>l\<in>set (splitLines (Bytes fontDocument)). prefix ''  bgcolor="'' l)\<close>
proof -
  note A = graph_attribute_lines [OF example_document example_noNewline(1,2,3,7,8)]
  note B = graph_attribute_lines [OF font_document example_noNewline(4,5,6,7,8)]
  have bg: "BackgroundColor exampleMeta = ''lightgray''" "FontName exampleMeta = []"
    by (simp_all add: exampleMeta_def)
  have fn: "FontName fontMeta = ''Courier''" "BackgroundColor fontMeta = []"
    by (simp_all add: fontMeta_def)
  from A have a1: \<open>''  bgcolor="lightgray";'' \<in> set (splitLines (Bytes exampleDocument))\<close>
    unfolding bg by auto
  from A have a2: \<open>\<not> (\<exists>l\<in>set (splitLines (Bytes exampleDocument)). prefix ''  fontname="'' l)\<close>
    unfolding bg by simp
  from B have b1: \<open>''  fontname="Courier";'' \<in> set (splitLines (Bytes fontDocument))\<close>
    unfolding fn by auto
  from B have b2: \<open>\<not> (\<exists>l\<in>set (splitLines (Bytes fontDocument)). prefix ''  bgcolor="'' l)\<close>
    unfolding fn by simp
  from a1 a2 b1 b2 example_document font_document bg(2) fn(2) show ?thesis by (intro conjI)
qed

text \<open>
  Without the restriction the claim fails: the values are written as they are,
  so a background color that holds a double quote, a newline and the text of a
  \<open>fontname\<close> attribute gives a document with a \<open>fontname\<close> line although
  \<open>FontName\<close> is empty.
\<close>

theorem graph_attribute_lines_counterexample:
  \<open>FontName \<lparr>GraphName = ''G'', BackgroundColor = ''red";\<newline>  fontname="Courier'', FontName = []\<rparr> = []
   \<and> map_sum id (splitLines \<circ> Bytes)
        (buildDocument
           \<lparr>GraphName = ''G'', BackgroundColor = ''red";\<newline>  fontname="Courier'', FontName = []\<rparr>
           [] [])
      = Inr [''digraph G { '',
             ''  bgcolor="red";'',
             ''  fontname="Courier";'',
             ''  node [shape=box, style=filled, fillcolor="#e0e0e0", fontname="Arial"];'',
             ''  edge [color="#555555", fontname="Arial"];'',
             ''}'']\<close>
  by (simp add: buildDocument_def writeHeader_writes graphHeader_def bgcolorLine_def
      defaultNodeStyle_def defaultEdgeStyle_def nodeIndexMap_def WriteString_def Bytes_def)

end
